theory Spec2Isabelle
  imports Main "HOL-Library.Sublist"
begin

section \<open>The transcription service\<close>

text \<open>
  The class \<open>TranscriptionService\<close> wraps the browser's speech recognition engine. Its
  fields become one record. The JavaScript runtime and the engine are the environment:
  the timeouts that are pending, the calls issued to the engine and the invocations of the
  two callbacks are kept in the same record as traces, so that a property of "what is
  scheduled" or "what was called" is a property of the state.

  Handlers and timer callbacks run one at a time, so every method and every handler is a
  function from state to state. What the engine answers to \<open>recognition.start()\<close> or
  \<open>recognition.abort()\<close> (it returns, or throws) is a parameter of the function that
  makes the call.
\<close>

subsection \<open>Data\<close>

text \<open>The two closures handed to \<open>setTimeout\<close>: the plain one, which calls
  \<open>attemptRestart\<close>, and the one scheduled when the ceiling is reached, which resets the
  counter first.\<close>

datatype timer_callback = AttemptRestart | CooldownRetry

record timer =
  timerId :: nat
  delay :: nat
  callback :: timer_callback

datatype engine_call = EngineStart | EngineStop | EngineAbort

text \<open>A value caught by a \<open>catch\<close> clause: an \<open>Error\<close> object with its message, or
  anything else.\<close>

datatype thrown = ErrorObject string | OtherValue

datatype call_outcome = Returns | Throws thrown

text \<open>One entry of \<open>event.results\<close>: the transcript of its first alternative and the
  \<open>isFinal\<close> flag.\<close>

record recognition_result =
  alternative0 :: string
  isFinal :: bool

record recognition_event =
  resultIndex :: nat
  results :: "recognition_result list"

text \<open>Callbacks are identified by a number. \<open>lastResultTime\<close> and \<open>currentLanguage\<close>
  are written but never read by the code modelled here and are left out.\<close>

record service =
  recognition :: bool
  isListening :: bool
  isAborting :: bool
  shouldBeListening :: bool
  isPausedState :: bool
  transcript :: string
  interimTranscript :: string
  silenceTimer :: "nat option"
  restartTimer :: "nat option"
  onResultCallback :: "nat option"
  onErrorCallback :: "nat option"
  restartAttempts :: nat
  maxRestartAttempts :: nat
  onresultInstalled :: bool
  timers :: "timer list"
  nextTimerId :: nat
  engineCalls :: "engine_call list"
  resultLog :: "(nat \<times> string \<times> string) list"
  errorLog :: "(nat \<times> string) list"

text \<open>The constructor. \<open>available\<close> tells whether the platform offers a recognition engine.
  Timer handles are positive numbers, hence truthy.\<close>

definition new_service :: "bool \<Rightarrow> service" where
  "new_service available =
     \<lparr> recognition = available, isListening = False, isAborting = False,
       shouldBeListening = False, isPausedState = False,
       transcript = [], interimTranscript = [],
       silenceTimer = None, restartTimer = None,
       onResultCallback = None, onErrorCallback = None,
       restartAttempts = 0, maxRestartAttempts = 3,
       onresultInstalled = False,
       timers = [], nextTimerId = 1,
       engineCalls = [], resultLog = [], errorLog = [] \<rparr>"

subsection \<open>Timers\<close>

definition clearTimeout :: "nat \<Rightarrow> service \<Rightarrow> service" where
  "clearTimeout t s = s\<lparr>timers := filter (\<lambda>x. timerId x \<noteq> t) (timers s)\<rparr>"

definition clearSilenceTimer :: "service \<Rightarrow> service" where
  "clearSilenceTimer s =
     (case silenceTimer s of
        None \<Rightarrow> s
      | Some t \<Rightarrow> (clearTimeout t s)\<lparr>silenceTimer := None\<rparr>)"

definition clearRestartTimer :: "service \<Rightarrow> service" where
  "clearRestartTimer s =
     (case restartTimer s of
        None \<Rightarrow> s
      | Some t \<Rightarrow> (clearTimeout t s)\<lparr>restartTimer := None\<rparr>)"

text \<open>\<open>this.restartTimer = setTimeout(cb, d)\<close>: a new timeout is pending and the field
  holds its handle. A handle the field held before is overwritten, not cleared.\<close>

definition scheduleRestart :: "timer_callback \<Rightarrow> nat \<Rightarrow> service \<Rightarrow> service" where
  "scheduleRestart cb d s =
     s\<lparr>timers := timers s @ [\<lparr>timerId = nextTimerId s, delay = d, callback = cb\<rparr>],
       restartTimer := Some (nextTimerId s),
       nextTimerId := Suc (nextTimerId s)\<rparr>"

subsection \<open>Engine event handlers\<close>

definition onstart :: "service \<Rightarrow> service" where
  "onstart s =
     clearRestartTimer (clearSilenceTimer
       (s\<lparr>isListening := True, isAborting := False, restartAttempts := 0\<rparr>))"

definition onend :: "service \<Rightarrow> service" where
  "onend s =
     (let s1 = s\<lparr>isListening := False\<rparr>
      in if shouldBeListening s1 \<and> \<not> isAborting s1 \<and> \<not> isPausedState s1
         then scheduleRestart AttemptRestart 100 s1
         else s1)"

text \<open>\<open>this.onErrorCallback?.(msg)\<close>\<close>

definition notifyError :: "string \<Rightarrow> service \<Rightarrow> service" where
  "notifyError msg s =
     (case onErrorCallback s of
        None \<Rightarrow> s
      | Some cb \<Rightarrow> s\<lparr>errorLog := errorLog s @ [(cb, msg)]\<rparr>)"

definition onerror :: "string \<Rightarrow> service \<Rightarrow> service" where
  "onerror err s =
     (if err = ''no-speech'' then s
      else if err = ''audio-capture'' then
        (notifyError ''Microphone access denied or unavailable'' s)\<lparr>shouldBeListening := False\<rparr>
      else if err = ''not-allowed'' then
        (notifyError ''Microphone permission denied'' s)\<lparr>shouldBeListening := False\<rparr>
      else if err = ''network'' then s
      else if err = ''aborted'' then s
      else s)"

text \<open>\<open>error instanceof Error && error.message.includes("already started")\<close>\<close>

definition includesStr :: "string \<Rightarrow> string \<Rightarrow> bool" where
  "includesStr m sub = sublist sub m"

fun alreadyStarted :: "thrown \<Rightarrow> bool" where
  "alreadyStarted (ErrorObject m) = includesStr m ''already started''"
| "alreadyStarted OtherValue = False"

text \<open>The call \<open>this.recognition.start()\<close>. Without an engine the member access itself
  throws a \<open>TypeError\<close> and no call is issued.\<close>

definition recognitionStart :: "call_outcome \<Rightarrow> service \<Rightarrow> call_outcome \<times> service" where
  "recognitionStart out s =
     (if recognition s then (out, s\<lparr>engineCalls := engineCalls s @ [EngineStart]\<rparr>)
      else (Throws (ErrorObject ''Cannot read properties of null''), s))"

definition attemptRestart :: "call_outcome \<Rightarrow> service \<Rightarrow> service" where
  "attemptRestart out s =
     (if \<not> shouldBeListening s \<or> isAborting s \<or> isListening s then s
      else if restartAttempts s \<ge> maxRestartAttempts s then
        scheduleRestart CooldownRetry 2000 (s\<lparr>restartAttempts := 0\<rparr>)
      else
        (case recognitionStart out (s\<lparr>restartAttempts := restartAttempts s + 1\<rparr>) of
           (Returns, s1) \<Rightarrow> s1
         | (Throws e, s1) \<Rightarrow>
             if alreadyStarted e
             then s1\<lparr>isListening := True, restartAttempts := 0\<rparr>
             else scheduleRestart AttemptRestart 500 s1))"

text \<open>The closure of the 2000 ms timeout.\<close>

definition cooldownRetry :: "call_outcome \<Rightarrow> service \<Rightarrow> service" where
  "cooldownRetry out s =
     (let s1 = s\<lparr>restartAttempts := 0\<rparr>
      in if shouldBeListening s1 then attemptRestart out s1 else s1)"

text \<open>A pending timeout fires: it leaves the pending list and its closure runs. A handle
  that is not pending (cleared, or fired before) does nothing.\<close>

definition fireTimer :: "nat \<Rightarrow> call_outcome \<Rightarrow> service \<Rightarrow> service" where
  "fireTimer t out s =
     (case find (\<lambda>x. timerId x = t) (timers s) of
        None \<Rightarrow> s
      | Some tm \<Rightarrow>
          (case callback tm of
             AttemptRestart \<Rightarrow> attemptRestart out (clearTimeout t s)
           | CooldownRetry \<Rightarrow> cooldownRetry out (clearTimeout t s)))"

text \<open>The body of the \<open>for\<close> loop of the result handler, over the entries from
  \<open>resultIndex\<close> on.\<close>

fun accumulate :: "recognition_result list \<Rightarrow> service \<Rightarrow> service" where
  "accumulate [] s = s"
| "accumulate (r # rs) s =
     accumulate rs
       (if isFinal r
        then s\<lparr>transcript := transcript s @ alternative0 r @ '' ''\<rparr>
        else s\<lparr>interimTranscript := interimTranscript s @ alternative0 r\<rparr>)"

text \<open>\<open>this.onResultCallback?.(this.interimTranscript, this.transcript)\<close>\<close>

definition notifyResult :: "service \<Rightarrow> service" where
  "notifyResult s =
     (case onResultCallback s of
        None \<Rightarrow> s
      | Some cb \<Rightarrow> s\<lparr>resultLog := resultLog s @ [(cb, interimTranscript s, transcript s)]\<rparr>)"

text \<open>The result handler is installed by \<open>start\<close> and stays installed afterwards.\<close>

definition onresult :: "recognition_event \<Rightarrow> service \<Rightarrow> service" where
  "onresult ev s =
     (if \<not> onresultInstalled s then s
      else notifyResult
             (accumulate (drop (resultIndex ev) (results ev))
                ((clearSilenceTimer s)\<lparr>interimTranscript := []\<rparr>)))"

subsection \<open>Methods\<close>

text \<open>\<open>onError?.(msg)\<close> on the parameter of \<open>start\<close>.\<close>

definition callOnError :: "nat option \<Rightarrow> string \<Rightarrow> service \<Rightarrow> service" where
  "callOnError onError msg s =
     (case onError of
        None \<Rightarrow> s
      | Some cb \<Rightarrow> s\<lparr>errorLog := errorLog s @ [(cb, msg)]\<rparr>)"

definition start :: "nat \<Rightarrow> nat option \<Rightarrow> call_outcome \<Rightarrow> service \<Rightarrow> service" where
  "start onResult onError out s =
     (if \<not> recognition s then callOnError onError ''Speech Recognition API not supported'' s
      else if shouldBeListening s then s
      else
        (case recognitionStart out
                (s\<lparr>transcript := [], interimTranscript := [], isAborting := False,
                   shouldBeListening := True, onResultCallback := Some onResult,
                   onErrorCallback := onError, restartAttempts := 0,
                   onresultInstalled := True\<rparr>) of
           (Returns, s1) \<Rightarrow> s1
         | (Throws (ErrorObject m), s1) \<Rightarrow>
             if \<not> includesStr m ''already started''
             then (callOnError onError
                     (if m = [] then ''Failed to start transcription'' else m) s1)
                    \<lparr>shouldBeListening := False\<rparr>
             else s1
         | (Throws OtherValue, s1) \<Rightarrow> s1))"

text \<open>\<open>stop\<close> returns the transcript. A throwing \<open>recognition.stop()\<close> is caught and
  only logged, so the engine's answer does not matter.\<close>

definition stop :: "service \<Rightarrow> string \<times> service" where
  "stop s =
     (let s1 = clearRestartTimer (clearSilenceTimer (s\<lparr>shouldBeListening := False\<rparr>));
          s2 = (if recognition s1 \<and> isListening s1
                then s1\<lparr>engineCalls := engineCalls s1 @ [EngineStop]\<rparr> else s1);
          s3 = s2\<lparr>onResultCallback := None, onErrorCallback := None\<rparr>
      in (transcript s3, s3))"

definition abort :: "call_outcome \<Rightarrow> service \<Rightarrow> service" where
  "abort out s =
     (let s1 = clearRestartTimer (clearSilenceTimer (s\<lparr>shouldBeListening := False\<rparr>));
          s2 = (if recognition s1 \<and> (isListening s1 \<or> isAborting s1)
                then (let s' = s1\<lparr>isAborting := True,
                                   engineCalls := engineCalls s1 @ [EngineAbort]\<rparr>;
                          s'' = (case out of Returns \<Rightarrow> s'\<lparr>isListening := False\<rparr>
                                 | Throws e \<Rightarrow> s')
                      in s''\<lparr>isAborting := False\<rparr>)
                else s1)
      in s2\<lparr>onResultCallback := None, onErrorCallback := None\<rparr>)"

definition pause :: "service \<Rightarrow> service" where
  "pause s =
     (let s1 = clearSilenceTimer (s\<lparr>isPausedState := True\<rparr>)
      in if recognition s1 \<and> isListening s1
         then s1\<lparr>engineCalls := engineCalls s1 @ [EngineStop]\<rparr> else s1)"

text \<open>In \<open>resume\<close> a throwing \<open>recognition.start()\<close> is at most logged.\<close>

definition resume :: "service \<Rightarrow> service" where
  "resume s =
     (let s1 = s\<lparr>isPausedState := False\<rparr>
      in if shouldBeListening s1 \<and> \<not> isListening s1 \<and> recognition s1
         then s1\<lparr>engineCalls := engineCalls s1 @ [EngineStart]\<rparr> else s1)"

definition isSupported :: "service \<Rightarrow> bool" where
  "isSupported s = recognition s"

subsection \<open>Runs\<close>

text \<open>Everything that can happen to a service: a method call, an engine event, or a
  pending timeout firing. The engine's handlers exist only when there is an engine.\<close>

datatype event =
    CallStart nat "nat option" call_outcome
  | CallStop
  | CallAbort call_outcome
  | CallPause
  | CallResume
  | EngineStarted
  | EngineEnded
  | EngineError string
  | EngineResult recognition_event
  | TimerFired nat call_outcome

fun step :: "service \<Rightarrow> event \<Rightarrow> service" where
  "step s (CallStart onResult onError out) = start onResult onError out s"
| "step s CallStop = snd (stop s)"
| "step s (CallAbort out) = abort out s"
| "step s CallPause = pause s"
| "step s CallResume = resume s"
| "step s EngineStarted = (if recognition s then onstart s else s)"
| "step s EngineEnded = (if recognition s then onend s else s)"
| "step s (EngineError err) = (if recognition s then onerror err s else s)"
| "step s (EngineResult ev) = onresult ev s"
| "step s (TimerFired t out) = fireTimer t out s"

definition run :: "service \<Rightarrow> event list \<Rightarrow> service" where
  "run s evs = foldl step s evs"

text \<open>A finalized update carrying one fragment.\<close>

definition finalUpdate :: "string \<Rightarrow> recognition_event" where
  "finalUpdate txt = \<lparr>resultIndex = 0, results = [\<lparr>alternative0 = txt, isFinal = True\<rparr>]\<rparr>"

text \<open>Scenario A of the specification, for three fragments: start, the engine starts,
  three finalized updates, stop. The result is what \<open>stop\<close> returns.\<close>

definition scenarioA :: "string \<Rightarrow> string \<Rightarrow> string \<Rightarrow> string" where
  "scenarioA a b c =
     fst (stop (run (new_service True)
       [CallStart 0 None Returns, EngineStarted,
        EngineResult (finalUpdate a), EngineResult (finalUpdate b),
        EngineResult (finalUpdate c)]))"

text \<open>A session is opened by a call of \<open>start\<close> that passes both guards; a run stays
  within one session when none of its events opens another one.\<close>

fun opensSession :: "service \<Rightarrow> event \<Rightarrow> bool" where
  "opensSession s (CallStart onResult onError out) = (recognition s \<and> \<not> shouldBeListening s)"
| "opensSession s _ = False"

fun sameSession :: "service \<Rightarrow> event list \<Rightarrow> bool" where
  "sameSession s [] = True"
| "sameSession s (e # es) = (\<not> opensSession s e \<and> sameSession (step s e) es)"

fun isCallStart :: "event \<Rightarrow> bool" where
  "isCallStart (CallStart onResult onError out) = True"
| "isCallStart _ = False"

text \<open>The \<open>finalText\<close> arguments of the result callback invocations made between two
  states of a run, oldest first.\<close>

definition finalTexts :: "service \<Rightarrow> service \<Rightarrow> string list" where
  "finalTexts s s' = map (\<lambda>c. snd (snd c)) (drop (length (resultLog s)) (resultLog s'))"

text \<open>The invariant of the specification's data model, on the flags of the class.\<close>

definition listeningInvariant :: "service \<Rightarrow> bool" where
  "listeningInvariant s = (isListening s \<longrightarrow> shouldBeListening s \<and> \<not> isPausedState s)"

text \<open>A restart attempt that fails: the engine refuses the call with an error other than
  "already started", or it accepts the call and ends without ever reporting a start.\<close>

fun failedAttempt :: "call_outcome \<Rightarrow> service \<Rightarrow> service" where
  "failedAttempt Returns s = onend (attemptRestart Returns s)"
| "failedAttempt (Throws e) s = attemptRestart (Throws e) s"

fun failing :: "call_outcome \<Rightarrow> bool" where
  "failing Returns = True"
| "failing (Throws e) = (\<not> alreadyStarted e)"

section \<open>The recording hook\<close>

text \<open>
  \<open>useMediaRecorder\<close> keeps React state and refs; they become one record. A blob is its
  list of bytes, and \<open>new Blob(chunks)\<close> is their concatenation. The recorder's
  \<open>ondataavailable\<close> handler is one of two closures: the one installed by
  \<open>startRecording\<close>, which forwards a chunk to \<open>options.onDataAvailable\<close>, and the one
  installed by \<open>stopRecording\<close>, which pushes it on the local array \<open>chunks\<close>.
  The recorder's error event, the sampling of the level and the duration tick are not
  modelled.
\<close>

type_synonym blob = "nat list"

datatype data_handler = ForwardChunk | CollectChunk

text \<open>What the \<open>try\<close> block of \<open>startRecording\<close> meets: a stream of so many tracks
  with the processor initialised on it, or a thrown value.\<close>

datatype acquisition = Granted nat | Failed thrown

record recorder =
  isRecording :: bool
  isPaused :: bool
  duration :: nat
  audioLevel :: nat
  mediaRecorderRef :: bool
  streamRef :: "bool list option"
  processorRef :: "bool option"
  timerRef :: "nat option"
  levelMonitorRef :: "nat option"
  intervals :: "nat list"
  nextIntervalId :: nat
  ondataavailable :: data_handler
  onstopInstalled :: bool
  chunks :: "blob list"
  optOnDataAvailable :: bool
  optOnError :: bool
  forwarded :: "blob list"
  recorderErrors :: "string list"
  settled :: "(string + blob) list"

text \<open>The hook before any recording. \<open>streamRef\<close> holds, for each track, whether it is
  live; \<open>processorRef\<close> holds whether the processor's audio context is open;
  \<open>settled\<close> collects what the promises of \<open>stopRecording\<close> resolved (\<open>Inr\<close>) or
  were rejected with (\<open>Inl\<close>).\<close>

definition new_recorder :: "bool \<Rightarrow> bool \<Rightarrow> recorder" where
  "new_recorder withOnData withOnError =
     \<lparr> isRecording = False, isPaused = False, duration = 0, audioLevel = 0,
       mediaRecorderRef = False, streamRef = None, processorRef = None,
       timerRef = None, levelMonitorRef = None, intervals = [], nextIntervalId = 1,
       ondataavailable = ForwardChunk, onstopInstalled = False, chunks = [],
       optOnDataAvailable = withOnData, optOnError = withOnError,
       forwarded = [], recorderErrors = [],
       settled = [] \<rparr>"

definition clearIntervalRef :: "nat option \<Rightarrow> recorder \<Rightarrow> recorder" where
  "clearIntervalRef r s =
     (case r of None \<Rightarrow> s | Some t \<Rightarrow> s\<lparr>intervals := filter (\<lambda>x. x \<noteq> t) (intervals s)\<rparr>)"

text \<open>\<open>startRecording\<close>. On a failure \<open>options.onError\<close>, when given, receives the
  thrown error, or a new one if the thrown value is not an \<open>Error\<close>.\<close>

definition startRecording :: "acquisition \<Rightarrow> recorder \<Rightarrow> recorder" where
  "startRecording acq s =
     (case acq of
        Failed e \<Rightarrow>
          if optOnError s
          then s\<lparr>recorderErrors := recorderErrors s @
                   [case e of ErrorObject m \<Rightarrow> m | OtherValue \<Rightarrow> ''Failed to start recording'']\<rparr>
          else s
      | Granted n \<Rightarrow>
          s\<lparr>processorRef := Some True, streamRef := Some (replicate n True),
            mediaRecorderRef := True, ondataavailable := ForwardChunk,
            onstopInstalled := False,
            isRecording := True, duration := 0,
            timerRef := Some (nextIntervalId s),
            levelMonitorRef := Some (Suc (nextIntervalId s)),
            intervals := intervals s @ [nextIntervalId s, Suc (nextIntervalId s)],
            nextIntervalId := Suc (Suc (nextIntervalId s))\<rparr>)"

definition pauseRecording :: "recorder \<Rightarrow> recorder" where
  "pauseRecording s =
     (if mediaRecorderRef s \<and> isRecording s
      then clearIntervalRef (levelMonitorRef s) (clearIntervalRef (timerRef s) (s\<lparr>isPaused := True\<rparr>))
      else s)"

definition resumeRecording :: "recorder \<Rightarrow> recorder" where
  "resumeRecording s =
     (if mediaRecorderRef s \<and> isPaused s
      then s\<lparr>isPaused := False,
             timerRef := Some (nextIntervalId s),
             levelMonitorRef := Some (Suc (nextIntervalId s)),
             intervals := intervals s @ [nextIntervalId s, Suc (nextIntervalId s)],
             nextIntervalId := Suc (Suc (nextIntervalId s))\<rparr>
      else s)"

text \<open>\<open>stopRecording\<close>: a fresh empty \<open>chunks\<close> array, the collecting handler and the
  \<open>onstop\<close> handler replace what was installed, then the recorder is asked to stop, the
  tracks are stopped, the processor is stopped and both intervals are cleared.\<close>

definition stopRecording :: "recorder \<Rightarrow> recorder" where
  "stopRecording s =
     (if mediaRecorderRef s \<and> isRecording s
      then (let s1 = s\<lparr>chunks := [], ondataavailable := CollectChunk, onstopInstalled := True\<rparr>;
                s2 = s1\<lparr>streamRef := map_option (map (\<lambda>live. False)) (streamRef s1)\<rparr>;
                s3 = s2\<lparr>processorRef := map_option (\<lambda>opened. False) (processorRef s2)\<rparr>;
                s4 = clearIntervalRef (levelMonitorRef s3) (clearIntervalRef (timerRef s3) s3)
            in s4\<lparr>isRecording := False, isPaused := False, duration := 0, audioLevel := 0\<rparr>)
      else s\<lparr>settled := settled s @ [Inl ''No active recording'']\<rparr>)"

text \<open>The recorder's \<open>dataavailable\<close> event, with the chunk it carries.\<close>

definition dataavailable :: "blob \<Rightarrow> recorder \<Rightarrow> recorder" where
  "dataavailable b s =
     (if \<not> mediaRecorderRef s then s
      else (case ondataavailable s of
              ForwardChunk \<Rightarrow>
                if length b > 0 \<and> optOnDataAvailable s
                then s\<lparr>forwarded := forwarded s @ [b]\<rparr> else s
            | CollectChunk \<Rightarrow>
                if length b > 0 then s\<lparr>chunks := chunks s @ [b]\<rparr> else s))"

text \<open>The recorder's \<open>stop\<close> event: the promise resolves with the blob of \<open>chunks\<close>.\<close>

definition onstop :: "recorder \<Rightarrow> recorder" where
  "onstop s =
     (if mediaRecorderRef s \<and> onstopInstalled s
      then s\<lparr>settled := settled s @ [Inr (concat (chunks s))]\<rparr> else s)"

datatype recorder_event =
    StartRecording acquisition
  | PauseRecording
  | ResumeRecording
  | StopRecording
  | DataAvailable blob
  | RecorderStopped

fun recorder_step :: "recorder \<Rightarrow> recorder_event \<Rightarrow> recorder" where
  "recorder_step s (StartRecording acq) = startRecording acq s"
| "recorder_step s PauseRecording = pauseRecording s"
| "recorder_step s ResumeRecording = resumeRecording s"
| "recorder_step s StopRecording = stopRecording s"
| "recorder_step s (DataAvailable b) = dataavailable b s"
| "recorder_step s RecorderStopped = onstop s"

definition recorder_run :: "recorder \<Rightarrow> recorder_event list \<Rightarrow> recorder" where
  "recorder_run s evs = foldl recorder_step s evs"

section \<open>Properties of the transcription service\<close>

lemmas service_defs =
  start_def stop_def abort_def pause_def resume_def onstart_def onend_def onerror_def
  onresult_def fireTimer_def attemptRestart_def cooldownRetry_def recognitionStart_def
  scheduleRestart_def clearRestartTimer_def clearSilenceTimer_def clearTimeout_def
  notifyError_def notifyResult_def callOnError_def

subsection \<open>The result handler\<close>

lemma accumulate_transcript:
  "transcript (accumulate rs s) =
     transcript s @ concat (map (\<lambda>r. alternative0 r @ '' '') (filter isFinal rs))"
  by (induction rs arbitrary: s) simp_all

lemma accumulate_interim:
  "interimTranscript (accumulate rs s) =
     interimTranscript s @ concat (map alternative0 (filter (\<lambda>r. \<not> isFinal r) rs))"
  by (induction rs arbitrary: s) simp_all

lemma accumulate_eq:
  "accumulate rs s =
     s\<lparr>transcript := transcript s @ concat (map (\<lambda>r. alternative0 r @ '' '') (filter isFinal rs)),
       interimTranscript :=
         interimTranscript s @ concat (map alternative0 (filter (\<lambda>r. \<not> isFinal r) rs))\<rparr>"
  by (induction rs arbitrary: s) simp_all

lemma clearSilenceTimer_text [simp]:
  "transcript (clearSilenceTimer s) = transcript s"
  "interimTranscript (clearSilenceTimer s) = interimTranscript s"
  by (simp_all add: clearSilenceTimer_def clearTimeout_def split: option.splits)

lemma notifyResult_text [simp]:
  "transcript (notifyResult s) = transcript s"
  "interimTranscript (notifyResult s) = interimTranscript s"
  by (simp_all add: notifyResult_def split: option.splits)

lemma scenarioA_eq: "scenarioA a b c = a @ '' '' @ b @ '' '' @ c @ '' ''"
  by (simp add: scenarioA_def run_def stop_def start_def new_service_def recognitionStart_def
      onstart_def onresult_def finalUpdate_def clearSilenceTimer_def clearRestartTimer_def
      notifyResult_def Let_def)

text \<open>
  C1, as the code has it. Every recognition update appends each fragment that is final,
  in order and each followed by one space, to the transcript, and replaces the interim
  text with the concatenation of the fragments that are not final. Scenario A with the
  fragments \<open>a\<close>, \<open>b\<close>, \<open>c\<close> therefore makes \<open>stop\<close> return \<open>a b c\<close> with a space
  after each fragment: the fragments "Hello", "world", "today" give "Hello world today ".
\<close>

theorem onresult_appends:
  "onresultInstalled s \<Longrightarrow>
     transcript (onresult ev s) =
       transcript s @ concat (map (\<lambda>r. alternative0 r @ '' '')
                                (filter isFinal (drop (resultIndex ev) (results ev))))
   \<and> interimTranscript (onresult ev s) =
       concat (map alternative0
                 (filter (\<lambda>r. \<not> isFinal r) (drop (resultIndex ev) (results ev))))
   \<and> scenarioA a b c = a @ '' '' @ b @ '' '' @ c @ '' ''"
  by (simp add: onresult_def accumulate_transcript accumulate_interim scenarioA_eq)

theorem onresult_appends_witness:
  "onresultInstalled (start 0 None Returns (new_service True))
   \<and> transcript (onresult \<lparr>resultIndex = 1, results =
          [\<lparr>alternative0 = ''old'', isFinal = True\<rparr>,
           \<lparr>alternative0 = ''Hello'', isFinal = True\<rparr>,
           \<lparr>alternative0 = ''wor'', isFinal = False\<rparr>]\<rparr>
        (start 0 None Returns (new_service True))) = ''Hello ''
   \<and> interimTranscript (onresult \<lparr>resultIndex = 1, results =
          [\<lparr>alternative0 = ''old'', isFinal = True\<rparr>,
           \<lparr>alternative0 = ''Hello'', isFinal = True\<rparr>,
           \<lparr>alternative0 = ''wor'', isFinal = False\<rparr>]\<rparr>
        (start 0 None Returns (new_service True))) = ''wor''
   \<and> scenarioA ''Hello'' ''world'' ''today'' = ''Hello world today ''"
  using onresult_appends [of "start 0 None Returns (new_service True)"
      "\<lparr>resultIndex = 1, results =
          [\<lparr>alternative0 = ''old'', isFinal = True\<rparr>,
           \<lparr>alternative0 = ''Hello'', isFinal = True\<rparr>,
           \<lparr>alternative0 = ''wor'', isFinal = False\<rparr>]\<rparr>"
      "''Hello''" "''world''" "''today''"]
  by (simp add: start_def new_service_def recognitionStart_def)

text \<open>C1 as stated fails: with the fragments "Hello ", "world " and "today " the handler
  adds its own space after each, and \<open>stop\<close> returns the text with doubled spaces.\<close>

theorem scenarioA_counterexample:
  "scenarioA ''Hello '' ''world '' ''today '' \<noteq> ''Hello world today ''"
  by (simp add: scenarioA_eq)

subsection \<open>The final text within a session\<close>

text \<open>Each event extends the trace of the result callback by invocations that carry the
  transcript as it is after the event, and, unless it opens a session, only extends the
  transcript.\<close>

lemma step_resultLog:
  "\<exists>new. resultLog (step s e) = resultLog s @ new
      \<and> (\<forall>c\<in>set new. snd (snd c) = transcript (step s e))"
  by (cases e)
     (auto simp: service_defs Let_def accumulate_eq
           split: option.splits timer_callback.splits call_outcome.splits thrown.splits)

lemma step_transcript_prefix:
  "\<not> opensSession s e \<Longrightarrow> prefix (transcript s) (transcript (step s e))"
  by (cases e)
     (auto simp: service_defs Let_def accumulate_eq
           split: option.splits timer_callback.splits call_outcome.splits thrown.splits)

lemma run_Cons: "run s (e # es) = run (step s e) es"
  by (simp add: run_def)

lemma run_session_log:
  "sameSession s evs \<Longrightarrow>
     \<exists>new. resultLog (run s evs) = resultLog s @ new
       \<and> sorted_wrt prefix (map (\<lambda>c. snd (snd c)) new)
       \<and> (\<forall>c\<in>set new. prefix (transcript s) (snd (snd c)))
       \<and> prefix (transcript s) (transcript (run s evs))"
proof (induction evs arbitrary: s)
  case Nil
  then show ?case by (simp add: run_def)
next
  case (Cons e es)
  from Cons.prems have no: "\<not> opensSession s e" and rest: "sameSession (step s e) es"
    by simp_all
  obtain n1 where n1: "resultLog (step s e) = resultLog s @ n1"
    "\<forall>c\<in>set n1. snd (snd c) = transcript (step s e)"
    using step_resultLog [of s e] by blast
  obtain n2 where n2: "resultLog (run (step s e) es) = resultLog (step s e) @ n2"
    "sorted_wrt prefix (map (\<lambda>c. snd (snd c)) n2)"
    "\<forall>c\<in>set n2. prefix (transcript (step s e)) (snd (snd c))"
    "prefix (transcript (step s e)) (transcript (run (step s e) es))"
    using Cons.IH [OF rest] by blast
  have p: "prefix (transcript s) (transcript (step s e))"
    using step_transcript_prefix [OF no] .
  have a: "resultLog (run s (e # es)) = resultLog s @ (n1 @ n2)"
    using n1(1) n2(1) by (simp add: run_Cons)
  have b: "sorted_wrt prefix (map (\<lambda>c. snd (snd c)) (n1 @ n2))"
  proof -
    have "sorted_wrt prefix (map (\<lambda>c. snd (snd c)) n1)"
      using n1(2) by (induction n1) auto
    with n1(2) n2(2,3) show ?thesis
      by (auto simp: sorted_wrt_append)
  qed
  have c: "\<forall>c\<in>set (n1 @ n2). prefix (transcript s) (snd (snd c))"
    using n1(2) n2(3) p by (auto intro: prefix_order.trans)
  have d: "prefix (transcript s) (transcript (run s (e # es)))"
    using p n2(4) by (auto simp: run_Cons intro: prefix_order.trans)
  from a b c d show ?case by blast
qed

text \<open>
  C3. Over any run that stays within one session (engine ends, scheduled restarts firing,
  engine starts, pause and resume, errors and results in any order), the \<open>finalText\<close>
  values handed to the result callback form a chain: each is a prefix of every later one,
  so their lengths never decrease; and the transcript at the start of the run is a prefix
  of the transcript at its end.
\<close>

theorem finalText_monotone:
  "sameSession s evs \<Longrightarrow>
     sorted_wrt prefix (finalTexts s (run s evs))
   \<and> sorted_wrt (\<lambda>a b. length a \<le> length b) (finalTexts s (run s evs))
   \<and> prefix (transcript s) (transcript (run s evs))"
proof -
  assume "sameSession s evs"
  then obtain new where new: "resultLog (run s evs) = resultLog s @ new"
    "sorted_wrt prefix (map (\<lambda>c. snd (snd c)) new)"
    "prefix (transcript s) (transcript (run s evs))"
    using run_session_log [of s evs] by blast
  have ft: "finalTexts s (run s evs) = map (\<lambda>c. snd (snd c)) new"
    by (simp add: finalTexts_def new(1))
  have "sorted_wrt (\<lambda>a b. length a \<le> length b) (map (\<lambda>c. snd (snd c)) new)"
    using new(2) by (rule sorted_wrt_mono_rel [rotated]) (simp add: prefix_length_le)
  with new ft show ?thesis by simp
qed

theorem finalText_monotone_witness:
  "sameSession (start 0 None Returns (new_service True))
     [EngineStarted, EngineResult (finalUpdate ''Hello''), EngineEnded, TimerFired 1 Returns,
      EngineStarted, EngineResult (finalUpdate ''world'')]
   \<and> finalTexts (start 0 None Returns (new_service True))
       (run (start 0 None Returns (new_service True))
         [EngineStarted, EngineResult (finalUpdate ''Hello''), EngineEnded, TimerFired 1 Returns,
          EngineStarted, EngineResult (finalUpdate ''world'')])
      = [''Hello '', ''Hello world '']
   \<and> sorted_wrt prefix [''Hello '', ''Hello world '']"
  using finalText_monotone [of "start 0 None Returns (new_service True)"
      "[EngineStarted, EngineResult (finalUpdate ''Hello''), EngineEnded, TimerFired 1 Returns,
        EngineStarted, EngineResult (finalUpdate ''world'')]"]
  by (simp add: finalTexts_def run_def service_defs new_service_def finalUpdate_def Let_def)

subsection \<open>Stopping without a session\<close>

text \<open>
  C2, as the code has it. \<open>stop\<close> has no failing branch. Called while no session is
  active (the intent flag is off and the service is not listening) it returns the current
  transcript, reports nothing through the error callback and issues no call to the engine.
\<close>

theorem stop_without_session:
  "\<not> shouldBeListening s \<Longrightarrow> \<not> isListening s \<Longrightarrow>
     fst (stop s) = transcript s
   \<and> errorLog (snd (stop s)) = errorLog s
   \<and> engineCalls (snd (stop s)) = engineCalls s
   \<and> \<not> shouldBeListening (snd (stop s)) \<and> \<not> isListening (snd (stop s))"
  by (simp add: stop_def Let_def clearSilenceTimer_def clearRestartTimer_def clearTimeout_def
      split: option.splits)

theorem stop_without_session_witness:
  "\<not> shouldBeListening (new_service True) \<and> \<not> isListening (new_service True)
   \<and> fst (stop (new_service True)) = []
   \<and> errorLog (snd (stop (new_service True))) = []"
  using stop_without_session [of "new_service True"]
  by (simp add: new_service_def)

text \<open>C2 as stated fails: on a service that was never started, \<open>stop\<close> returns the empty
  transcript and leaves the state as it was; no error is raised or reported.\<close>

theorem stop_without_session_counterexample:
  "stop (new_service True) = ([], new_service True)"
  by (simp add: stop_def new_service_def Let_def clearSilenceTimer_def clearRestartTimer_def)

subsection \<open>Scheduling restarts\<close>

text \<open>C4 as stated fails: after a start, two engine-ended events in a row leave two
  restart timeouts pending.\<close>

theorem onend_twice_counterexample:
  "length (timers (run (new_service True)
      [CallStart 0 None Returns, EngineStarted, EngineEnded, EngineEnded])) = 2"
  by (simp add: run_def start_def new_service_def recognitionStart_def onstart_def onend_def
      scheduleRestart_def clearSilenceTimer_def clearRestartTimer_def Let_def)

text \<open>
  C4, as the code has it. Each invocation of the engine-ended handler with the intent to
  listen set, not aborting and not paused schedules exactly one restart, 100 ms ahead, and
  makes it the tracked one; a restart that is already pending is not cancelled, so two
  invocations in a row leave two restarts pending. Duplicates are dropped when they fire:
  a scheduled restart that runs while the service is listening does nothing.
\<close>

theorem onend_schedules_one:
  "shouldBeListening s \<and> \<not> isAborting s \<and> \<not> isPausedState s \<Longrightarrow>
     timers (onend s) =
       timers s @ [\<lparr>timerId = nextTimerId s, delay = 100, callback = AttemptRestart\<rparr>]
   \<and> restartTimer (onend s) = Some (nextTimerId s)
   \<and> timers (onend (onend s)) =
       timers s @ [\<lparr>timerId = nextTimerId s, delay = 100, callback = AttemptRestart\<rparr>,
                   \<lparr>timerId = Suc (nextTimerId s), delay = 100, callback = AttemptRestart\<rparr>]
   \<and> restartTimer (onend (onend s)) = Some (Suc (nextTimerId s))
   \<and> attemptRestart out (s\<lparr>isListening := True\<rparr>) = s\<lparr>isListening := True\<rparr>"
  by (simp add: onend_def scheduleRestart_def attemptRestart_def Let_def)

theorem onend_schedules_one_witness:
  "shouldBeListening (start 0 None Returns (new_service True))
   \<and> \<not> isAborting (start 0 None Returns (new_service True))
   \<and> \<not> isPausedState (start 0 None Returns (new_service True))
   \<and> length (timers (onend (start 0 None Returns (new_service True)))) = 1
   \<and> length (timers (onend (onend (start 0 None Returns (new_service True))))) = 2"
  using onend_schedules_one [of "start 0 None Returns (new_service True)" Returns]
  by (simp add: start_def new_service_def recognitionStart_def)

text \<open>
  C5 fails on the code for \<open>pause\<close>, which clears the silence timer only. A restart
  scheduled by an engine-ended event stays pending across \<open>pause\<close>; when it fires, the
  engine is started although the pause intent is set, and the engine's start event then
  makes the service listening while paused.
\<close>

theorem pause_keeps_scheduled_restart:
  "isPausedState (run (new_service True)
      [CallStart 0 None Returns, EngineStarted, EngineEnded, CallPause])
   \<and> engineCalls (run (new_service True)
      [CallStart 0 None Returns, EngineStarted, EngineEnded, CallPause]) = [EngineStart]
   \<and> engineCalls (run (new_service True)
      [CallStart 0 None Returns, EngineStarted, EngineEnded, CallPause, TimerFired 1 Returns])
       = [EngineStart, EngineStart]
   \<and> isListening (run (new_service True)
      [CallStart 0 None Returns, EngineStarted, EngineEnded, CallPause, TimerFired 1 Returns,
       EngineStarted])
   \<and> isPausedState (run (new_service True)
      [CallStart 0 None Returns, EngineStarted, EngineEnded, CallPause, TimerFired 1 Returns,
       EngineStarted])"
  by (simp add: run_def start_def new_service_def recognitionStart_def onstart_def onend_def
      pause_def fireTimer_def attemptRestart_def clearTimeout_def
      scheduleRestart_def clearSilenceTimer_def clearRestartTimer_def Let_def)

subsection \<open>Engine errors\<close>

text \<open>While the intent to listen is off, nothing but a call of \<open>start\<close> turns it on
  again, and no event makes the service start the engine.\<close>

lemma step_without_intent:
  "\<not> shouldBeListening s \<Longrightarrow> \<not> isCallStart e \<Longrightarrow>
     \<not> shouldBeListening (step s e)
   \<and> filter ((=) EngineStart) (engineCalls (step s e)) = filter ((=) EngineStart) (engineCalls s)"
  by (cases e)
     (auto simp: service_defs Let_def accumulate_eq
           split: option.splits timer_callback.splits call_outcome.splits)

lemma run_without_intent:
  "\<not> shouldBeListening s \<Longrightarrow> \<forall>e\<in>set evs. \<not> isCallStart e \<Longrightarrow>
     \<not> shouldBeListening (run s evs)
   \<and> filter ((=) EngineStart) (engineCalls (run s evs)) = filter ((=) EngineStart) (engineCalls s)"
proof (induction evs arbitrary: s)
  case Nil
  then show ?case by (simp add: run_def)
next
  case (Cons e es)
  from Cons.prems have st: "\<not> shouldBeListening (step s e)"
    "filter ((=) EngineStart) (engineCalls (step s e)) = filter ((=) EngineStart) (engineCalls s)"
    using step_without_intent [of s e] by simp_all
  from Cons.prems have "\<forall>e\<in>set es. \<not> isCallStart e" by simp
  with Cons.IH [OF st(1)] st(2) show ?case by (simp add: run_def)
qed

text \<open>
  C6. A fatal engine error (\<open>audio-capture\<close>, \<open>not-allowed\<close>) clears the intent to
  listen at once and invokes the error callback at most once per error event; the
  engine-ended event that follows schedules no restart, and until the caller calls
  \<open>start\<close> again no event makes the service start the engine: not a timeout that was
  pending, not \<open>resume\<close>. A transient error (\<open>no-speech\<close>, \<open>network\<close>) leaves the
  whole state, the error trace included, as it was.
\<close>

theorem fatal_errors_classified:
  "(err = ''audio-capture'' \<or> err = ''not-allowed'' \<longrightarrow>
       \<not> shouldBeListening (onerror err s)
     \<and> (\<exists>msgs. errorLog (onerror err s) = errorLog s @ msgs \<and> length msgs \<le> 1)
     \<and> timers (onend (onerror err s)) = timers s
     \<and> ((\<forall>e\<in>set evs. \<not> isCallStart e) \<longrightarrow>
          filter ((=) EngineStart) (engineCalls (run (onerror err s) evs))
            = filter ((=) EngineStart) (engineCalls s)))
   \<and> (err = ''no-speech'' \<or> err = ''network'' \<longrightarrow> onerror err s = s)"
proof -
  have a: "\<not> shouldBeListening (onerror err s)"
    if "err = ''audio-capture'' \<or> err = ''not-allowed''"
    using that by (auto simp: onerror_def)
  have b: "\<exists>msgs. errorLog (onerror err s) = errorLog s @ msgs \<and> length msgs \<le> 1"
    by (auto simp: onerror_def notifyError_def split: option.splits)
  have c: "timers (onend (onerror err s)) = timers s"
    if "err = ''audio-capture'' \<or> err = ''not-allowed''"
    using that by (auto simp: onerror_def onend_def notifyError_def Let_def split: option.splits)
  have d: "engineCalls (onerror err s) = engineCalls s"
    by (auto simp: onerror_def notifyError_def split: option.splits)
  have e: "filter ((=) EngineStart) (engineCalls (run (onerror err s) evs))
            = filter ((=) EngineStart) (engineCalls s)"
    if "err = ''audio-capture'' \<or> err = ''not-allowed''" "\<forall>e\<in>set evs. \<not> isCallStart e"
    using run_without_intent [OF a [OF that(1)] that(2)] d by simp
  have f: "onerror err s = s" if "err = ''no-speech'' \<or> err = ''network''"
    using that by (auto simp: onerror_def)
  from a b c e f show ?thesis by blast
qed

theorem fatal_errors_classified_witness:
  "\<not> shouldBeListening (onerror ''audio-capture'' (onstart (start 0 (Some 1) Returns (new_service True))))
   \<and> errorLog (onerror ''audio-capture'' (onstart (start 0 (Some 1) Returns (new_service True))))
       = [(1, ''Microphone access denied or unavailable'')]
   \<and> filter ((=) EngineStart) (engineCalls (run (onerror ''audio-capture''
         (onstart (start 0 (Some 1) Returns (new_service True)))) [EngineEnded, CallResume]))
       = [EngineStart]"
  using fatal_errors_classified [of "''audio-capture''"
      "onstart (start 0 (Some 1) Returns (new_service True))" "[EngineEnded, CallResume]"]
  by (simp add: service_defs new_service_def)

subsection \<open>The restart ceiling\<close>

lemma failedAttempt_counts:
  assumes "recognition s" "shouldBeListening s" "\<not> isAborting s" "\<not> isListening s"
    "restartAttempts s < maxRestartAttempts s" "failing out"
  shows "recognition (failedAttempt out s) \<and> shouldBeListening (failedAttempt out s)
    \<and> \<not> isAborting (failedAttempt out s) \<and> \<not> isListening (failedAttempt out s)
    \<and> restartAttempts (failedAttempt out s) = Suc (restartAttempts s)
    \<and> maxRestartAttempts (failedAttempt out s) = maxRestartAttempts s
    \<and> engineCalls (failedAttempt out s) = engineCalls s @ [EngineStart]"
  using assms
  by (cases out)
     (auto simp: attemptRestart_def recognitionStart_def onend_def scheduleRestart_def Let_def)

text \<open>
  C7. From a state that wants to listen and is not listening, with the counter at 0 and the
  ceiling at 3, three failed restart attempts in a row bring the counter to 3 with three
  engine starts issued. The next attempt issues no engine start: it resets the counter and
  schedules the cooldown closure 2000 ms ahead. When the cooldown fires with the intent
  still on, an engine start is attempted again; with the intent off it attempts nothing.
  The counter is 0 after the engine's start event, and after a restart attempt that finds
  the engine already started: the two places where the service becomes listening.
\<close>

theorem restart_ceiling_cooldown:
  assumes "recognition s" "shouldBeListening s" "\<not> isAborting s" "\<not> isListening s"
    and "restartAttempts s = 0" "maxRestartAttempts s = 3"
    and "failing o1" "failing o2" "failing o3"
    and "s3 = failedAttempt o3 (failedAttempt o2 (failedAttempt o1 s))"
  shows "restartAttempts s3 = 3
    \<and> engineCalls s3 = engineCalls s @ [EngineStart, EngineStart, EngineStart]
    \<and> attemptRestart o4 s3 = scheduleRestart CooldownRetry 2000 (s3\<lparr>restartAttempts := 0\<rparr>)
    \<and> engineCalls (attemptRestart o4 s3) = engineCalls s3
    \<and> timers (attemptRestart o4 s3) =
        timers s3 @ [\<lparr>timerId = nextTimerId s3, delay = 2000, callback = CooldownRetry\<rparr>]
    \<and> restartAttempts (attemptRestart o4 s3) = 0
    \<and> engineCalls (cooldownRetry o5 (attemptRestart o4 s3)) = engineCalls s3 @ [EngineStart]
    \<and> (\<not> shouldBeListening s' \<longrightarrow> engineCalls (cooldownRetry o5 s') = engineCalls s')
    \<and> restartAttempts (onstart s') = 0
    \<and> (recognition s' \<and> shouldBeListening s' \<and> \<not> isAborting s' \<and> \<not> isListening s'
          \<and> restartAttempts s' < maxRestartAttempts s' \<and> \<not> failing o6
        \<longrightarrow> isListening (attemptRestart o6 s') \<and> restartAttempts (attemptRestart o6 s') = 0)"
proof -
  let ?s1 = "failedAttempt o1 s"
  let ?s2 = "failedAttempt o2 ?s1"
  have h1: "recognition ?s1 \<and> shouldBeListening ?s1 \<and> \<not> isAborting ?s1 \<and> \<not> isListening ?s1
    \<and> restartAttempts ?s1 = 1 \<and> maxRestartAttempts ?s1 = 3
    \<and> engineCalls ?s1 = engineCalls s @ [EngineStart]"
    using failedAttempt_counts [of s o1] assms by simp
  have h2: "recognition ?s2 \<and> shouldBeListening ?s2 \<and> \<not> isAborting ?s2 \<and> \<not> isListening ?s2
    \<and> restartAttempts ?s2 = 2 \<and> maxRestartAttempts ?s2 = 3
    \<and> engineCalls ?s2 = engineCalls s @ [EngineStart, EngineStart]"
    using failedAttempt_counts [of ?s1 o2] h1 assms by simp
  have h3: "recognition s3 \<and> shouldBeListening s3 \<and> \<not> isAborting s3 \<and> \<not> isListening s3
    \<and> restartAttempts s3 = 3 \<and> maxRestartAttempts s3 = 3
    \<and> engineCalls s3 = engineCalls s @ [EngineStart, EngineStart, EngineStart]"
    using failedAttempt_counts [of ?s2 o3] h2 assms by simp
  have c4: "attemptRestart o4 s3 = scheduleRestart CooldownRetry 2000 (s3\<lparr>restartAttempts := 0\<rparr>)"
    using h3 by (simp add: attemptRestart_def)
  have c5: "engineCalls (cooldownRetry o5 (attemptRestart o4 s3)) = engineCalls s3 @ [EngineStart]"
    unfolding c4 using h3
    by (cases o5)
       (auto simp: cooldownRetry_def attemptRestart_def recognitionStart_def
          scheduleRestart_def Let_def)
  have c6: "\<not> shouldBeListening s' \<longrightarrow> engineCalls (cooldownRetry o5 s') = engineCalls s'"
    by (simp add: cooldownRetry_def Let_def)
  have c7: "restartAttempts (onstart s') = 0"
    by (simp add: onstart_def clearRestartTimer_def clearSilenceTimer_def clearTimeout_def
        split: option.splits)
  have c8: "recognition s' \<and> shouldBeListening s' \<and> \<not> isAborting s' \<and> \<not> isListening s'
          \<and> restartAttempts s' < maxRestartAttempts s' \<and> \<not> failing o6
        \<longrightarrow> isListening (attemptRestart o6 s') \<and> restartAttempts (attemptRestart o6 s') = 0"
    by (cases o6) (auto simp: attemptRestart_def recognitionStart_def)
  show ?thesis
    using h3 c5 c6 c7 c8 unfolding c4 by (simp add: scheduleRestart_def)
qed

theorem restart_ceiling_cooldown_witness:
  "shouldBeListening (start 0 None Returns (new_service True))
   \<and> failing (Throws (ErrorObject ''service-not-allowed''))
   \<and> restartAttempts (failedAttempt (Throws OtherValue) (failedAttempt Returns
        (failedAttempt (Throws (ErrorObject ''service-not-allowed''))
          (start 0 None Returns (new_service True))))) = 3
   \<and> engineCalls (failedAttempt (Throws OtherValue) (failedAttempt Returns
        (failedAttempt (Throws (ErrorObject ''service-not-allowed''))
          (start 0 None Returns (new_service True)))))
       = [EngineStart, EngineStart, EngineStart, EngineStart]
   \<and> engineCalls (attemptRestart Returns (failedAttempt (Throws OtherValue) (failedAttempt Returns
        (failedAttempt (Throws (ErrorObject ''service-not-allowed''))
          (start 0 None Returns (new_service True))))))
       = [EngineStart, EngineStart, EngineStart, EngineStart]
   \<and> restartAttempts (attemptRestart Returns (failedAttempt (Throws OtherValue)
        (failedAttempt Returns (failedAttempt (Throws (ErrorObject ''service-not-allowed''))
          (start 0 None Returns (new_service True)))))) = 0"
proof -
  let ?s = "start 0 None Returns (new_service True)"
  have h: "recognition ?s" "shouldBeListening ?s" "\<not> isAborting ?s" "\<not> isListening ?s"
    "restartAttempts ?s = 0" "maxRestartAttempts ?s = 3"
    by (simp_all add: start_def new_service_def recognitionStart_def)
  have e: "engineCalls ?s = [EngineStart]"
    by (simp add: start_def new_service_def recognitionStart_def)
  have f: "failing (Throws (ErrorObject ''service-not-allowed''))" "failing Returns"
    "failing (Throws OtherValue)"
    by code_simp+
  let ?s3 = "failedAttempt (Throws OtherValue) (failedAttempt Returns
        (failedAttempt (Throws (ErrorObject ''service-not-allowed'')) ?s))"
  note r = restart_ceiling_cooldown [OF h f refl, of Returns Returns "new_service True" Returns]
  have r1: "restartAttempts ?s3 = 3"
    using r by (rule conjunct1)
  have r2: "engineCalls ?s3 = [EngineStart, EngineStart, EngineStart, EngineStart]"
    using r [THEN conjunct2, THEN conjunct1] unfolding e by (simp only: append_Cons append_Nil)
  have r4: "engineCalls (attemptRestart Returns ?s3) = engineCalls ?s3"
    using r [THEN conjunct2, THEN conjunct2, THEN conjunct2, THEN conjunct1] .
  have r6: "restartAttempts (attemptRestart Returns ?s3) = 0"
    using r [THEN conjunct2, THEN conjunct2, THEN conjunct2, THEN conjunct2, THEN conjunct2,
        THEN conjunct1] .
  show ?thesis
    using h(2) f(1) r1 r2 r4 [unfolded r2] r6 by (intro conjI)
qed

subsection \<open>The listening invariant\<close>

text \<open>C9 as stated fails: after \<open>pause\<close> on a listening service the service is still
  listening, and the pause intent is set.\<close>

theorem listening_invariant_counterexample:
  "\<not> listeningInvariant (run (new_service True)
      [CallStart 0 None Returns, EngineStarted, CallPause])"
  by (simp add: listeningInvariant_def run_def start_def new_service_def recognitionStart_def
      onstart_def pause_def clearSilenceTimer_def clearRestartTimer_def Let_def)

text \<open>
  C9, as the code has it. The invariant (listening implies the intent to listen and no
  pause intent) holds for a new service, is established by every engine-ended event, and
  is preserved by \<open>start\<close>, \<open>resume\<close>, the result handler and, when there is an engine
  and its abort call returns, \<open>abort\<close>. \<open>pause\<close> and \<open>stop\<close> leave the listening flag
  as it is, so the invariant is broken between such a call on a listening service and the
  engine-ended event that follows, which restores it.
\<close>

theorem listening_invariant_preserved:
  "listeningInvariant (new_service available)
   \<and> listeningInvariant (onend s)
   \<and> (listeningInvariant s \<longrightarrow>
        listeningInvariant (start onResult onError out s)
      \<and> listeningInvariant (resume s)
      \<and> listeningInvariant (onresult ev s)
      \<and> (recognition s \<longrightarrow> listeningInvariant (abort Returns s)))
   \<and> isListening (pause s) = isListening s
   \<and> isListening (snd (stop s)) = isListening s
   \<and> listeningInvariant (onend (pause s))
   \<and> listeningInvariant (onend (snd (stop s)))"
proof -
  have a: "listeningInvariant (new_service available)"
    by (simp add: listeningInvariant_def new_service_def)
  have b: "listeningInvariant (onend s')" for s'
    by (simp add: listeningInvariant_def onend_def scheduleRestart_def Let_def)
  have c: "listeningInvariant (start onResult onError out s)" if "listeningInvariant s"
    using that
    by (auto simp: listeningInvariant_def start_def recognitionStart_def callOnError_def
        split: option.splits call_outcome.splits thrown.splits)
  have d: "listeningInvariant (resume s)" if "listeningInvariant s"
    using that by (auto simp: listeningInvariant_def resume_def Let_def)
  have e: "listeningInvariant (onresult ev s)" if "listeningInvariant s"
    using that
    by (auto simp: listeningInvariant_def onresult_def notifyResult_def accumulate_eq
        clearSilenceTimer_def clearTimeout_def split: option.splits)
  have f: "listeningInvariant (abort Returns s)" if "recognition s"
    using that
    by (auto simp: listeningInvariant_def abort_def Let_def clearRestartTimer_def
        clearSilenceTimer_def clearTimeout_def split: option.splits)
  have g: "isListening (pause s) = isListening s"
    by (auto simp: pause_def Let_def clearSilenceTimer_def clearTimeout_def split: option.splits)
  have h: "isListening (snd (stop s)) = isListening s"
    by (auto simp: stop_def Let_def clearRestartTimer_def clearSilenceTimer_def clearTimeout_def
        split: option.splits)
  from a b c d e f g h show ?thesis by blast
qed

theorem listening_invariant_preserved_witness:
  "listeningInvariant (onstart (start 0 None Returns (new_service True)))
   \<and> isListening (onstart (start 0 None Returns (new_service True)))
   \<and> recognition (onstart (start 0 None Returns (new_service True)))
   \<and> listeningInvariant (resume (onstart (start 0 None Returns (new_service True))))
   \<and> listeningInvariant (abort Returns (onstart (start 0 None Returns (new_service True))))
   \<and> isListening (pause (onstart (start 0 None Returns (new_service True))))"
  using listening_invariant_preserved [of True "onstart (start 0 None Returns (new_service True))"
      0 None Returns "finalUpdate ''a''"]
  by (simp add: service_defs new_service_def listeningInvariant_def)

subsection \<open>Starting a new session\<close>

lemma step_recognition [simp]: "recognition (step s e) = recognition s"
  by (cases e)
     (auto simp: service_defs Let_def accumulate_eq
           split: option.splits timer_callback.splits call_outcome.splits thrown.splits)

lemma step_unsupported:
  "\<not> recognition s \<Longrightarrow> transcript s = [] \<and> interimTranscript s = [] \<and> \<not> onresultInstalled s \<Longrightarrow>
     transcript (step s e) = [] \<and> interimTranscript (step s e) = []
     \<and> \<not> onresultInstalled (step s e)"
  by (cases e)
     (auto simp: service_defs Let_def
           split: option.splits timer_callback.splits call_outcome.splits thrown.splits)

lemma run_unsupported:
  "\<not> recognition s \<Longrightarrow> transcript s = [] \<and> interimTranscript s = [] \<and> \<not> onresultInstalled s \<Longrightarrow>
     \<not> recognition (run s evs) \<and> transcript (run s evs) = [] \<and> interimTranscript (run s evs) = []"
proof (induction evs arbitrary: s)
  case Nil
  then show ?case by (simp add: run_def)
next
  case (Cons e es)
  have "\<not> recognition (step s e)" using Cons.prems(1) by simp
  moreover have "transcript (step s e) = [] \<and> interimTranscript (step s e) = []
     \<and> \<not> onresultInstalled (step s e)"
    using step_unsupported [OF Cons.prems] .
  ultimately show ?case using Cons.IH [of "step s e"] by (simp add: run_def)
qed

lemma run_recognition [simp]: "recognition (run s evs) = recognition s"
  by (induction evs arbitrary: s) (simp_all add: run_def)

text \<open>
  C10. In every state a service can reach, a call of \<open>start\<close> while the intent to listen
  is off leaves the transcript and the interim text empty, whatever the engine answers to
  the start call; the text of the previous session is what \<open>stop\<close> returned. (Without an
  engine \<open>start\<close> only reports the error, and both texts are empty throughout.)
\<close>

theorem start_resets_text:
  "\<not> shouldBeListening (run (new_service available) evs) \<Longrightarrow>
     transcript (start onResult onError out (run (new_service available) evs)) = []
   \<and> interimTranscript (start onResult onError out (run (new_service available) evs)) = []
   \<and> fst (stop (run (new_service available) evs)) = transcript (run (new_service available) evs)"
proof (cases available)
  case True
  assume "\<not> shouldBeListening (run (new_service available) evs)"
  moreover have "recognition (run (new_service available) evs)"
    using True by (simp add: new_service_def)
  ultimately show ?thesis
    by (auto simp: start_def recognitionStart_def callOnError_def stop_def Let_def
        clearRestartTimer_def clearSilenceTimer_def clearTimeout_def
        split: option.splits call_outcome.splits thrown.splits)
next
  case False
  have "\<not> recognition (run (new_service available) evs)
    \<and> transcript (run (new_service available) evs) = []
    \<and> interimTranscript (run (new_service available) evs) = []"
    using False run_unsupported [of "new_service available" evs] by (simp add: new_service_def)
  then show ?thesis
    by (auto simp: start_def callOnError_def stop_def Let_def
        clearRestartTimer_def clearSilenceTimer_def clearTimeout_def split: option.splits)
qed

theorem start_resets_text_witness:
  "\<not> shouldBeListening (run (new_service True)
        [CallStart 0 None Returns, EngineStarted, EngineResult (finalUpdate ''Hello''), CallStop])
   \<and> transcript (run (new_service True)
        [CallStart 0 None Returns, EngineStarted, EngineResult (finalUpdate ''Hello''), CallStop])
       = ''Hello ''
   \<and> transcript (start 1 None Returns (run (new_service True)
        [CallStart 0 None Returns, EngineStarted, EngineResult (finalUpdate ''Hello''), CallStop]))
       = []"
  using start_resets_text [of True
        "[CallStart 0 None Returns, EngineStarted, EngineResult (finalUpdate ''Hello''), CallStop]"
        1 None Returns]
  by (simp add: run_def service_defs new_service_def finalUpdate_def Let_def)


section \<open>Properties of the recording hook\<close>

text \<open>
  C8 fails on the code. \<open>stopRecording\<close> starts from an empty \<open>chunks\<close> array and
  installs the collecting handler only then, so the resolved blob holds the chunks emitted
  after the call. A chunk emitted during the recording went to the handler installed by
  \<open>startRecording\<close>, which forwards it to \<open>options.onDataAvailable\<close> when the caller
  gave one and drops it otherwise. Here one chunk \<open>[1]\<close> is emitted while recording and
  one chunk \<open>[2]\<close> after the stop request: the promise resolves with \<open>[2]\<close>.
  The rest of the claim holds there: the track is stopped, the processor is stopped and no
  interval is left running.
\<close>

theorem stopRecording_drops_earlier_chunks:
  "settled (recorder_run (new_recorder False True)
      [StartRecording (Granted 1), DataAvailable [1], StopRecording, DataAvailable [2],
       RecorderStopped]) = [Inr [2]]
   \<and> forwarded (recorder_run (new_recorder False True)
      [StartRecording (Granted 1), DataAvailable [1], StopRecording, DataAvailable [2],
       RecorderStopped]) = []
   \<and> streamRef (recorder_run (new_recorder False True)
      [StartRecording (Granted 1), DataAvailable [1], StopRecording, DataAvailable [2],
       RecorderStopped]) = Some [False]
   \<and> processorRef (recorder_run (new_recorder False True)
      [StartRecording (Granted 1), DataAvailable [1], StopRecording, DataAvailable [2],
       RecorderStopped]) = Some False
   \<and> intervals (recorder_run (new_recorder False True)
      [StartRecording (Granted 1), DataAvailable [1], StopRecording, DataAvailable [2],
       RecorderStopped]) = []"
  by (simp add: recorder_run_def new_recorder_def startRecording_def stopRecording_def
      dataavailable_def onstop_def clearIntervalRef_def Let_def)

end
